theory Spec2Isabelle
  imports Complex_Main
begin

text \<open>
  A model of the timestamp and subtitle logic of \<^verbatim>\<open>main.py\<close> (class
  \<^verbatim>\<open>YouTubeProcessor\<close>): the functions \<^verbatim>\<open>parse_timestamp\<close>, \<^verbatim>\<open>validate_timestamps\<close>,
  \<^verbatim>\<open>_format_duration\<close>, \<^verbatim>\<open>_srt_time_to_seconds\<close>, \<^verbatim>\<open>_seconds_to_srt_time\<close> and
  \<^verbatim>\<open>_trim_subtitle_file\<close>, with the built-in string operations they call. An exception
  is a value: \<open>Inl\<close> of an error, or \<open>None\<close> where the caller swallows every exception.
\<close>

section \<open>Python string primitives used by \<^verbatim>\<open>main.py\<close>\<close>

text \<open>
  Strings are lists of characters. Only ASCII input is modelled: \<^verbatim>\<open>str.strip()\<close> removes the
  ten ASCII characters for which \<^verbatim>\<open>str.isspace\<close> holds, while \<^verbatim>\<open>int()\<close> and \<^verbatim>\<open>float()\<close>
  skip only the six characters of C's \<^verbatim>\<open>isspace\<close>.
\<close>

definition str_isspace :: "char \<Rightarrow> bool" where
  "str_isspace c = (c \<in> set [CHR 0x09, CHR 0x0A, CHR 0x0B, CHR 0x0C, CHR 0x0D,
                                CHR 0x1C, CHR 0x1D, CHR 0x1E, CHR 0x1F, CHR 0x20])"

definition c_isspace :: "char \<Rightarrow> bool" where
  "c_isspace c = (c \<in> set [CHR 0x09, CHR 0x0A, CHR 0x0B, CHR 0x0C, CHR 0x0D, CHR 0x20])"

definition strip_with :: "(char \<Rightarrow> bool) \<Rightarrow> string \<Rightarrow> string" where
  "strip_with sp s = rev (dropWhile sp (rev (dropWhile sp s)))"

definition str_strip :: "string \<Rightarrow> string" where
  "str_strip = strip_with str_isspace"

text \<open>
  \<^verbatim>\<open>s.split(sep)\<close> for a non-empty separator: occurrences are found from the left and do
  not overlap; the result always has at least one field.
\<close>

fun str_split :: "string \<Rightarrow> string \<Rightarrow> string list" where
  "str_split sep [] = [[]]"
| "str_split sep (c # cs) =
     (if take (length sep) (c # cs) = sep
      then [] # str_split sep (drop (length sep - 1) cs)
      else (case str_split sep cs of
              [] \<Rightarrow> [[c]]
            | f # fs \<Rightarrow> (c # f) # fs))"

fun str_join :: "string \<Rightarrow> string list \<Rightarrow> string" where
  "str_join sep [] = []"
| "str_join sep [x] = x"
| "str_join sep (x # y # ys) = x @ sep @ str_join sep (y # ys)"

text \<open>\<^verbatim>\<open>s.replace(a, b)\<close> for one-character \<^verbatim>\<open>a\<close> and \<^verbatim>\<open>b\<close>.\<close>

definition str_replace :: "char \<Rightarrow> char \<Rightarrow> string \<Rightarrow> string" where
  "str_replace a b s = map (\<lambda>c. if c = a then b else c) s"

section \<open>Decimal digits, \<^verbatim>\<open>int()\<close> and integer formatting\<close>

definition digit_val :: "char \<Rightarrow> nat option" where
  "digit_val c = map_of (zip ''0123456789'' [0, 1, 2, 3, 4, 5, 6, 7, 8, 9]) c"

definition digit_char :: "nat \<Rightarrow> char" where
  "digit_char d = ''0123456789'' ! d"

text \<open>
  The grammar \<^verbatim>\<open>digitpart ::= digit (["_"] digit)*\<close> shared by \<^verbatim>\<open>int()\<close> and \<^verbatim>\<open>float()\<close>.
  \<open>digitpart_more v k s\<close> continues after \<open>k\<close> digits of value \<open>v\<close> and returns the value,
  the number of digits and the unread rest.
\<close>

fun digitpart_more :: "nat \<Rightarrow> nat \<Rightarrow> string \<Rightarrow> nat \<times> nat \<times> string" where
  "digitpart_more v k [] = (v, k, [])"
| "digitpart_more v k [c] =
     (case digit_val c of
        Some x \<Rightarrow> (10 * v + x, Suc k, [])
      | None \<Rightarrow> (v, k, [c]))"
| "digitpart_more v k (c # d # cs) =
     (case digit_val c of
        Some x \<Rightarrow> digitpart_more (10 * v + x) (Suc k) (d # cs)
      | None \<Rightarrow>
          (if c = CHR ''_'' then
             (case digit_val d of
                Some y \<Rightarrow> digitpart_more (10 * v + y) (Suc k) cs
              | None \<Rightarrow> (v, k, c # d # cs))
           else (v, k, c # d # cs)))"

definition digitpart :: "string \<Rightarrow> (nat \<times> nat \<times> string) option" where
  "digitpart s =
     (case s of
        [] \<Rightarrow> None
      | c # cs \<Rightarrow>
          (case digit_val c of
             None \<Rightarrow> None
           | Some x \<Rightarrow> Some (digitpart_more x 1 cs)))"

text \<open>An optional leading sign: the flag is true for \<^verbatim>\<open>-\<close>.\<close>

definition split_sign :: "string \<Rightarrow> bool \<times> string" where
  "split_sign s =
     (case s of
        [] \<Rightarrow> (False, [])
      | c # cs \<Rightarrow>
          if c = CHR ''-'' then (True, cs)
          else if c = CHR ''+'' then (False, cs)
          else (False, c # cs))"

text \<open>
  \<^verbatim>\<open>int(s)\<close> in base 10 on an ASCII string; \<open>None\<close> stands for the \<^verbatim>\<open>ValueError\<close>.
  Python integers are unbounded (the interpreter's configurable limit on the number of
  digits is not modelled).
\<close>

definition py_int :: "string \<Rightarrow> int option" where
  "py_int s =
     (case split_sign (strip_with c_isspace s) of
        (neg, u) \<Rightarrow>
          (case digitpart u of
             Some (v, k, []) \<Rightarrow> Some (if neg then - int v else int v)
           | _ \<Rightarrow> None))"

text \<open>\<^verbatim>\<open>str(n)\<close> for a natural number, and the format \<^verbatim>\<open>{n:02d}\<close>.\<close>

fun nat_str :: "nat \<Rightarrow> string" where
  "nat_str n = (if n < 10 then [digit_char n] else nat_str (n div 10) @ [digit_char (n mod 10)])"

declare nat_str.simps [simp del]

definition zfill :: "nat \<Rightarrow> string \<Rightarrow> string" where
  "zfill w s = replicate (w - length s) CHR ''0'' @ s"

definition fmt_02d :: "int \<Rightarrow> string" where
  "fmt_02d n = (if n < 0 then CHR ''-'' # nat_str (nat (- n)) else zfill 2 (nat_str (nat n)))"

section \<open>User timestamps\<close>

datatype error = ValueError string

text \<open>
  The spec's \<^verbatim>\<open>FormatError\<close>: the \<^verbatim>\<open>ValueError\<close> that \<^verbatim>\<open>parse_timestamp\<close> raises from its
  \<^verbatim>\<open>except\<close> clause.
\<close>

definition FormatError :: error where
  "FormatError =
     ValueError ''Timestamp must be in MM:SS or HH:MM:SS format (e.g., 1:30 or 1:30:45)''"

definition parse_timestamp :: "string \<Rightarrow> error + int" where
  "parse_timestamp timestamp =
     (case str_split '':'' (str_strip timestamp) of
        [p0, p1] \<Rightarrow>
          (case (py_int p0, py_int p1) of
             (Some minutes, Some seconds) \<Rightarrow> Inr (minutes * 60 + seconds)
           | _ \<Rightarrow> Inl FormatError)
      | [p0, p1, p2] \<Rightarrow>
          (case (py_int p0, py_int p1, py_int p2) of
             (Some hours, Some minutes, Some seconds) \<Rightarrow>
               Inr (hours * 3600 + minutes * 60 + seconds)
           | _ \<Rightarrow> Inl FormatError)
      | _ \<Rightarrow> Inl FormatError)"

text \<open>
  \<^verbatim>\<open>_format_duration\<close>: \<^verbatim>\<open>not seconds\<close> holds for \<open>0\<close>; \<^verbatim>\<open>//\<close> and \<^verbatim>\<open>%\<close> round towards
  minus infinity, as \<open>div\<close> and \<open>mod\<close> on \<open>int\<close> do.
\<close>

definition format_duration :: "int \<Rightarrow> string" where
  "format_duration seconds =
     (if seconds = 0 then ''N/A''
      else
        let hours = seconds div 3600;
            minutes = (seconds mod 3600) div 60;
            secs = seconds mod 60
        in if hours > 0
           then fmt_02d hours @ '':'' @ fmt_02d minutes @ '':'' @ fmt_02d secs
           else fmt_02d minutes @ '':'' @ fmt_02d secs)"

text \<open>
  \<^verbatim>\<open>validate_timestamps\<close>. The first argument is the \<^verbatim>\<open>duration\<close> entry of
  \<^verbatim>\<open>self.video_info\<close> (\<open>None\<close> when the key is absent, where \<^verbatim>\<open>.get('duration', 0)\<close>
  gives \<open>0\<close>).
\<close>

definition validate_timestamps :: "int option \<Rightarrow> string \<Rightarrow> string \<Rightarrow> error + (int \<times> int)" where
  "validate_timestamps duration start_time end_time =
     (case parse_timestamp start_time of
        Inl e \<Rightarrow> Inl e
      | Inr start_seconds \<Rightarrow>
          (case parse_timestamp end_time of
             Inl e \<Rightarrow> Inl e
           | Inr end_seconds \<Rightarrow>
               if start_seconds \<ge> end_seconds
               then Inl (ValueError ''Start time must be before end time'')
               else
                 let video_duration = (case duration of None \<Rightarrow> 0 | Some d \<Rightarrow> d) in
                 if start_seconds \<ge> video_duration
                 then Inl (ValueError (''Start time exceeds video duration (''
                                        @ format_duration video_duration @ '')''))
                 else if end_seconds > video_duration
                 then Inl (ValueError (''End time exceeds video duration (''
                                        @ format_duration video_duration @ '')''))
                 else Inr (start_seconds, end_seconds)))"

section \<open>Cue times: \<^verbatim>\<open>float()\<close> and float formatting\<close>

text \<open>
  Python floats are modelled as exact rationals: every finite float is a rational, and
  \<^verbatim>\<open>//\<close>, \<^verbatim>\<open>%\<close>, comparison, \<^verbatim>\<open>max\<close>, \<^verbatim>\<open>min\<close> and the correctly rounded \<^verbatim>\<open>%.3f\<close> are
  taken on that rational. The binary rounding of \<^verbatim>\<open>float()\<close>, \<^verbatim>\<open>+\<close> and \<^verbatim>\<open>-\<close>, overflow,
  and the literals \<^verbatim>\<open>inf\<close> and \<^verbatim>\<open>nan\<close> are not modelled.

  \<^verbatim>\<open>float(s)\<close> reads \<^verbatim>\<open>[sign] ([digitpart] "." digitpart | digitpart ["."]) [exponent]\<close>
  between optional whitespace; \<open>None\<close> stands for the \<^verbatim>\<open>ValueError\<close>.
\<close>

definition float_number :: "string \<Rightarrow> (rat \<times> string) option" where
  "float_number u =
     (case digitpart u of
        Some (ip, k, rest) \<Rightarrow>
          (case rest of
             [] \<Rightarrow> Some (of_nat ip, [])
           | c # r \<Rightarrow>
               if c = CHR ''.'' then
                 (case digitpart r of
                    Some (fp, j, r2) \<Rightarrow> Some (of_nat ip + of_nat fp / 10 ^ j, r2)
                  | None \<Rightarrow> Some (of_nat ip, r))
               else Some (of_nat ip, c # r))
      | None \<Rightarrow>
          (case u of
             [] \<Rightarrow> None
           | c # r \<Rightarrow>
               if c = CHR ''.'' then
                 (case digitpart r of
                    Some (fp, j, r2) \<Rightarrow> Some (of_nat fp / 10 ^ j, r2)
                  | None \<Rightarrow> None)
               else None))"

definition float_exponent :: "string \<Rightarrow> int option" where
  "float_exponent s =
     (case s of
        [] \<Rightarrow> Some 0
      | c # r \<Rightarrow>
          if c = CHR ''e'' \<or> c = CHR ''E'' then
            (case split_sign r of
               (neg, u) \<Rightarrow>
                 (case digitpart u of
                    Some (v, k, []) \<Rightarrow> Some (if neg then - int v else int v)
                  | _ \<Rightarrow> None))
          else None)"

definition py_float :: "string \<Rightarrow> rat option" where
  "py_float s =
     (case split_sign (strip_with c_isspace s) of
        (neg, u) \<Rightarrow>
          (case float_number u of
             None \<Rightarrow> None
           | Some (m, rest) \<Rightarrow>
               (case float_exponent rest of
                  None \<Rightarrow> None
                | Some e \<Rightarrow>
                    let a = (if e \<ge> 0 then m * 10 ^ nat e else m / 10 ^ nat (- e))
                    in Some (if neg then - a else a))))"

text \<open>\<^verbatim>\<open>x // y\<close> and \<^verbatim>\<open>x % y\<close> for a positive divisor.\<close>

definition py_floordiv :: "rat \<Rightarrow> rat \<Rightarrow> int" where
  "py_floordiv x y = \<lfloor>x / y\<rfloor>"

definition py_mod :: "rat \<Rightarrow> rat \<Rightarrow> rat" where
  "py_mod x y = x - of_int \<lfloor>x / y\<rfloor> * y"

text \<open>
  The format \<^verbatim>\<open>{x:06.3f}\<close>: the nearest multiple of \<open>1/1000\<close>, a tie going to the even
  one, padded with zeros after the sign to six characters.
\<close>

definition round_half_even :: "rat \<Rightarrow> int" where
  "round_half_even x =
     (let f = \<lfloor>x\<rfloor>; d = x - of_int f
      in if d < 1 / 2 then f
         else if d > 1 / 2 then f + 1
         else if even f then f else f + 1)"

definition fmt_3f :: "rat \<Rightarrow> string" where
  "fmt_3f x =
     (let k = round_half_even (x * 1000)
      in nat_str (nat (k div 1000)) @ ''.'' @ zfill 3 (nat_str (nat (k mod 1000))))"

definition fmt_06_3f :: "rat \<Rightarrow> string" where
  "fmt_06_3f x = (if x < 0 then CHR ''-'' # zfill 5 (fmt_3f (- x)) else zfill 6 (fmt_3f x))"

text \<open>
  \<^verbatim>\<open>_srt_time_to_seconds\<close>; \<open>None\<close> stands for the exception it raises (\<^verbatim>\<open>IndexError\<close> for
  fewer than three parts, \<^verbatim>\<open>ValueError\<close> from \<^verbatim>\<open>int()\<close> or \<^verbatim>\<open>float()\<close>). Parts after the
  third are ignored.
\<close>

definition srt_time_to_seconds :: "string \<Rightarrow> rat option" where
  "srt_time_to_seconds time_str =
     (case str_split '':'' (str_replace CHR '','' CHR ''.'' time_str) of
        p0 # p1 # p2 # _ \<Rightarrow>
          (case (py_int p0, py_int p1, py_float p2) of
             (Some hours, Some minutes, Some seconds) \<Rightarrow>
               Some (of_int hours * 3600 + of_int minutes * 60 + seconds)
           | _ \<Rightarrow> None)
      | _ \<Rightarrow> None)"

text \<open>\<^verbatim>\<open>_seconds_to_srt_time\<close>.\<close>

definition seconds_to_srt_time :: "rat \<Rightarrow> string" where
  "seconds_to_srt_time seconds =
     (let hours = py_floordiv seconds 3600;
          minutes = py_floordiv (py_mod seconds 3600) 60;
          secs = py_mod seconds 60
      in str_replace CHR ''.'' CHR '',''
           (fmt_02d hours @ '':'' @ fmt_02d minutes @ '':'' @ fmt_06_3f secs))"

section \<open>Trimming a subtitle file\<close>

text \<open>
  The body of the loop of \<^verbatim>\<open>_trim_subtitle_file\<close>, in its three steps. Reading a block:
  its lines, of which there must be three, and the two times of the second line. \<open>None\<close>
  is a block the loop passes over, either by the test on the number of lines or by an
  exception that the bare \<^verbatim>\<open>except\<close> swallows.
\<close>

definition parse_time_line :: "string \<Rightarrow> (rat \<times> rat) option" where
  "parse_time_line time_line =
     (case str_split '' --> '' time_line of
        [start_time_str, end_time_str] \<Rightarrow>
          (case srt_time_to_seconds start_time_str of
             None \<Rightarrow> None
           | Some sub_start \<Rightarrow>
               (case srt_time_to_seconds end_time_str of
                  None \<Rightarrow> None
                | Some sub_end \<Rightarrow> Some (sub_start, sub_end)))
      | _ \<Rightarrow> None)"

definition parse_block :: "string \<Rightarrow> (rat \<times> rat \<times> string list) option" where
  "parse_block block =
     (let lines = str_split ''\<newline>'' (str_strip block)
      in if length lines \<ge> 3 then
           (case parse_time_line (lines ! 1) of
              None \<Rightarrow> None
            | Some (sub_start, sub_end) \<Rightarrow> Some (sub_start, sub_end, drop 2 lines))
         else None)"

text \<open>
  The overlap test, the new times and the test on the new span. The bounds of the window
  are the integers that \<^verbatim>\<open>validate_timestamps\<close> returned, taken here as any rationals.
\<close>

definition retime :: "rat \<Rightarrow> rat \<Rightarrow> rat \<Rightarrow> rat \<Rightarrow> (rat \<times> rat) option" where
  "retime start_seconds end_seconds sub_start sub_end =
     (if sub_end > start_seconds \<and> sub_start < end_seconds then
        let new_start = max 0 (sub_start - start_seconds);
            new_end = min (end_seconds - start_seconds) (sub_end - start_seconds)
        in if new_end > new_start then Some (new_start, new_end) else None
      else None)"

text \<open>The new block, an f-string.\<close>

definition render_block :: "nat \<Rightarrow> rat \<Rightarrow> rat \<Rightarrow> string list \<Rightarrow> string" where
  "render_block counter new_start new_end text_lines =
     nat_str counter @ ''\<newline>'' @ seconds_to_srt_time new_start @ '' --> ''
       @ seconds_to_srt_time new_end @ ''\<newline>'' @ str_join ''\<newline>'' text_lines"

definition trim_block :: "rat \<Rightarrow> rat \<Rightarrow> nat \<Rightarrow> string \<Rightarrow> string option" where
  "trim_block start_seconds end_seconds counter block =
     (case parse_block block of
        None \<Rightarrow> None
      | Some (sub_start, sub_end, text_lines) \<Rightarrow>
          (case retime start_seconds end_seconds sub_start sub_end of
             None \<Rightarrow> None
           | Some (new_start, new_end) \<Rightarrow>
               Some (render_block counter new_start new_end text_lines)))"

text \<open>The loop, on its state: the list \<^verbatim>\<open>trimmed_blocks\<close> and the counter.\<close>

fun trim_loop :: "rat \<Rightarrow> rat \<Rightarrow> string list \<Rightarrow> string list \<times> nat \<Rightarrow> string list \<times> nat" where
  "trim_loop start_seconds end_seconds [] st = st"
| "trim_loop start_seconds end_seconds (block # blocks) (trimmed_blocks, counter) =
     trim_loop start_seconds end_seconds blocks
       (case trim_block start_seconds end_seconds counter block of
          None \<Rightarrow> (trimmed_blocks, counter)
        | Some new_block \<Rightarrow> (trimmed_blocks @ [new_block], counter + 1))"

definition blocks_of :: "string \<Rightarrow> string list" where
  "blocks_of content = str_split ''\<newline>\<newline>'' (str_strip content)"

definition trimmed_blocks :: "rat \<Rightarrow> rat \<Rightarrow> string \<Rightarrow> string list" where
  "trimmed_blocks start_seconds end_seconds content =
     fst (trim_loop start_seconds end_seconds (blocks_of content) ([], 1))"

text \<open>
  \<^verbatim>\<open>_trim_subtitle_file\<close> on a file system, a map from paths to decoded contents. A path
  without a content is a file that cannot be read: \<^verbatim>\<open>open\<close> or \<^verbatim>\<open>read\<close> raises and the
  outer \<^verbatim>\<open>except\<close> clause writes the empty string. Writing is taken to succeed.
\<close>

type_synonym files = "string \<rightharpoonup> string"

definition trim_subtitle_file :: "files \<Rightarrow> string \<Rightarrow> string \<Rightarrow> rat \<Rightarrow> rat \<Rightarrow> files" where
  "trim_subtitle_file fs input_srt output_srt start_seconds end_seconds =
     (case fs input_srt of
        None \<Rightarrow> fs(output_srt \<mapsto> [])
      | Some content \<Rightarrow>
          fs(output_srt \<mapsto>
               str_join ''\<newline>\<newline>'' (trimmed_blocks start_seconds end_seconds content)))"

section \<open>Notions used in the statements\<close>

text \<open>A decimal digit, and the value of a string of decimal digits read from the left.\<close>

definition dec_val :: "nat \<Rightarrow> string \<Rightarrow> nat" where
  "dec_val v s = foldl (\<lambda>a c. 10 * a + the (digit_val c)) v s"

definition is_digit :: "char \<Rightarrow> bool" where
  "is_digit c = (digit_val c \<noteq> None)"

text \<open>
  The spec's \<^verbatim>\<open>RangeError\<close>: one of the three \<^verbatim>\<open>ValueError\<close>s that
  \<^verbatim>\<open>validate_timestamps\<close> raises itself, for a video of duration \<open>d\<close>.
\<close>

definition is_RangeError :: "int \<Rightarrow> error \<Rightarrow> bool" where
  "is_RangeError d e =
     (e \<in> set [ValueError ''Start time must be before end time'',
                ValueError (''Start time exceeds video duration ('' @ format_duration d @ '')''),
                ValueError (''End time exceeds video duration ('' @ format_duration d @ '')'')])"

text \<open>A cue time in the form \<^verbatim>\<open>HH:MM:SS,mmm\<close>.\<close>

definition wf_srt_time :: "string \<Rightarrow> bool" where
  "wf_srt_time x =
     (length x = 12
      \<and> list_all is_digit (take 2 x) \<and> x ! 2 = CHR '':''
      \<and> list_all is_digit (take 2 (drop 3 x)) \<and> x ! 5 = CHR '':''
      \<and> list_all is_digit (take 2 (drop 6 x)) \<and> x ! 8 = CHR '',''
      \<and> list_all is_digit (drop 9 x))"


definition malformed :: "string \<Rightarrow> bool" where
  "malformed block =
     (let lines = str_split ''\<newline>'' (str_strip block)
      in length lines < 3 \<or> parse_time_line (lines ! 1) = None)"

text \<open>
  The loop body without the rendering: the re-timed cue of a block, if it is kept, and
  the re-timed cues of a file.
\<close>

definition retime_block :: "rat \<Rightarrow> rat \<Rightarrow> string \<Rightarrow> (rat \<times> rat \<times> string list) option" where
  "retime_block start_seconds end_seconds block =
     (case parse_block block of
        None \<Rightarrow> None
      | Some (sub_start, sub_end, text_lines) \<Rightarrow>
          (case retime start_seconds end_seconds sub_start sub_end of
             None \<Rightarrow> None
           | Some (new_start, new_end) \<Rightarrow> Some (new_start, new_end, text_lines)))"

definition retimed_cues :: "rat \<Rightarrow> rat \<Rightarrow> string \<Rightarrow> (rat \<times> rat \<times> string list) list" where
  "retimed_cues start_seconds end_seconds content =
     List.map_filter (retime_block start_seconds end_seconds) (blocks_of content)"


text \<open>Rendering a list of cues as blocks numbered from \<open>n\<close>.\<close>

fun render_from :: "nat \<Rightarrow> (rat \<times> rat \<times> string list) list \<Rightarrow> string list" where
  "render_from n [] = []"
| "render_from n ((a, b, tx) # cs) = render_block n a b tx # render_from (Suc n) cs"

section \<open>Digits, integers and fields\<close>

lemma digit_val_digit_char: "d < 10 \<Longrightarrow> digit_val (digit_char d) = Some d"
proof -
  assume "d < 10"
  then have "d \<in> {0,1,2,3,4,5,6,7,8,9}" by auto
  then show ?thesis by (auto simp: digit_val_def digit_char_def)
qed

lemma is_digit_digit_char: "d < 10 \<Longrightarrow> is_digit (digit_char d)"
  by (simp add: is_digit_def digit_val_digit_char)

lemma is_digit_cases: "is_digit c \<longleftrightarrow> c \<in> set ''0123456789''"
  by (auto simp: is_digit_def digit_val_def split: if_splits)

lemma is_digit_zero: "is_digit CHR ''0''" by (simp add: is_digit_cases)

lemma nat_str_digits: "list_all is_digit (nat_str n)"
proof (induction n rule: nat_str.induct)
  case (1 n)
  show ?case
  proof (cases "n < 10")
    case True
    then show ?thesis by (simp add: nat_str.simps[of n] is_digit_digit_char)
  next
    case False
    with 1 show ?thesis by (simp add: nat_str.simps[of n] is_digit_digit_char)
  qed
qed

lemma nat_str_nonempty: "nat_str n \<noteq> []"
  by (simp add: nat_str.simps[of n])

lemma dec_val_snoc: "dec_val v (s @ [c]) = 10 * dec_val v s + the (digit_val c)"
  by (simp add: dec_val_def)

lemma dec_val_nat_str: "dec_val 0 (nat_str n) = n"
proof (induction n rule: nat_str.induct)
  case (1 n)
  show ?case
  proof (cases "n < 10")
    case True
    then show ?thesis by (simp add: nat_str.simps[of n] dec_val_def digit_val_digit_char)
  next
    case False
    with 1 show ?thesis by (simp add: nat_str.simps[of n] dec_val_snoc digit_val_digit_char)
  qed
qed

lemma dec_val_zeros: "dec_val 0 (replicate k CHR ''0'' @ s) = dec_val 0 s"
  by (induction k) (simp_all add: dec_val_def digit_val_def)

lemma digitpart_more_digits:
  "list_all is_digit ds \<Longrightarrow> rest = [] \<or> (\<not> is_digit (hd rest) \<and> hd rest \<noteq> CHR ''_'')
   \<Longrightarrow> digitpart_more v k (ds @ rest) = (dec_val v ds, k + length ds, rest)"
proof (induction ds arbitrary: v k)
  case Nil
  show ?case
  proof (cases rest)
    case Nil
    then show ?thesis by (simp add: dec_val_def)
  next
    case (Cons r rs)
    with Nil.prems have "digit_val r = None" "r \<noteq> CHR ''_''" by (auto simp: is_digit_def)
    then show ?thesis using Cons by (cases rs) (simp_all add: dec_val_def)
  qed
next
  case (Cons c ds)
  then obtain x where x: "digit_val c = Some x" by (auto simp: is_digit_def)
  from Cons have IH: "digitpart_more (10 * v + x) (Suc k) (ds @ rest) = (dec_val (10 * v + x) ds, Suc k + length ds, rest)"
    by simp
  show ?case
  proof (cases "ds @ rest")
    case Nil
    then show ?thesis using x by (simp add: dec_val_def)
  next
    case (Cons d es)
    then show ?thesis using x IH by (simp add: dec_val_def)
  qed
qed


lemma digitpart_digits:
  assumes "list_all is_digit ds" "ds \<noteq> []"
    and "rest = [] \<or> (\<not> is_digit (hd rest) \<and> hd rest \<noteq> CHR ''_'')"
  shows "digitpart (ds @ rest) = Some (dec_val 0 ds, length ds, rest)"
proof -
  from assms(2) obtain c cs where ds: "ds = c # cs" by (cases ds) auto
  with assms(1) obtain x where x: "digit_val c = Some x" and cs: "list_all is_digit cs"
    by (auto simp: is_digit_def)
  have "digitpart_more x 1 (cs @ rest) = (dec_val x cs, 1 + length cs, rest)"
    using digitpart_more_digits[OF cs assms(3)] by simp
  then show ?thesis using x ds by (simp add: digitpart_def dec_val_def)
qed

lemma strip_with_id:
  assumes "s \<noteq> []" "\<not> sp (hd s)" "\<not> sp (last s)"
  shows "strip_with sp s = s"
proof -
  from assms have 1: "dropWhile sp s = s" by (cases s) auto
  from assms have "rev s \<noteq> []" "\<not> sp (hd (rev s))" by (auto simp: hd_rev)
  then have "dropWhile sp (rev s) = rev s" by (cases "rev s") auto
  with 1 show ?thesis by (simp add: strip_with_def)
qed

lemma is_digit_not_c_isspace: "is_digit c \<Longrightarrow> \<not> c_isspace c"
  by (auto simp: is_digit_cases c_isspace_def)

lemma is_digit_not_str_isspace: "is_digit c \<Longrightarrow> \<not> str_isspace c"
  by (auto simp: is_digit_cases str_isspace_def)

lemma is_digit_not_sign: "is_digit c \<Longrightarrow> c \<noteq> CHR ''-'' \<and> c \<noteq> CHR ''+''"
  by (auto simp: is_digit_cases)

lemma is_digit_not_colon: "is_digit c \<Longrightarrow> c \<noteq> CHR '':''"
  by (auto simp: is_digit_cases)

lemma py_int_digits:
  assumes "list_all is_digit ds" "ds \<noteq> []"
  shows "py_int ds = Some (int (dec_val 0 ds))"
proof -
  from assms have h: "is_digit (hd ds)" and l: "is_digit (last ds)"
    by (auto simp: list_all_iff)
  have s: "strip_with c_isspace ds = ds"
    using strip_with_id[OF assms(2)] h l is_digit_not_c_isspace by blast
  have g: "split_sign ds = (False, ds)"
    using assms(2) h is_digit_not_sign by (cases ds) (auto simp: split_sign_def)
  have "digitpart (ds @ []) = Some (dec_val 0 ds, length ds, [])"
    by (rule digitpart_digits[OF assms]) simp
  then show ?thesis by (simp add: py_int_def s g)
qed

lemma zfill_digits: "list_all is_digit s \<Longrightarrow> list_all is_digit (zfill w s)"
  by (auto simp: zfill_def list_all_iff is_digit_zero)

lemma py_int_fmt_02d: "0 \<le> n \<Longrightarrow> py_int (fmt_02d n) = Some n"
proof -
  assume n: "0 \<le> n"
  have d: "list_all is_digit (zfill 2 (nat_str (nat n)))"
    by (rule zfill_digits[OF nat_str_digits])
  have ne: "zfill 2 (nat_str (nat n)) \<noteq> []"
    by (simp add: zfill_def nat_str_nonempty)
  have "dec_val 0 (zfill 2 (nat_str (nat n))) = nat n"
    by (simp add: zfill_def dec_val_zeros dec_val_nat_str)
  with py_int_digits[OF d ne] n show ?thesis by (simp add: fmt_02d_def)
qed

lemma fmt_02d_digits: "0 \<le> n \<Longrightarrow> list_all is_digit (fmt_02d n) \<and> fmt_02d n \<noteq> []"
  using zfill_digits[OF nat_str_digits, of 2 "nat n"]
  by (simp add: fmt_02d_def zfill_def nat_str_nonempty)

lemma str_split_no_sep:
  "c \<notin> set s \<Longrightarrow> str_split [c] s = [s]"
  by (induction s) auto

lemma str_split_first:
  "c \<notin> set a \<Longrightarrow> str_split [c] (a @ c # b) = a # str_split [c] b"
  by (induction a) auto

lemma str_strip_digit_ends:
  assumes "r \<noteq> []" "is_digit (hd r)" "is_digit (last r)"
  shows "str_strip r = r"
  unfolding str_strip_def
  using assms is_digit_not_str_isspace by (intro strip_with_id) blast+

lemma split3:
  assumes "CHR '':'' \<notin> set a" "CHR '':'' \<notin> set b" "CHR '':'' \<notin> set c"
  shows "str_split '':'' (a @ '':'' @ b @ '':'' @ c) = [a, b, c]"
  using assms by (simp add: str_split_first str_split_no_sep)

lemma split2:
  assumes "CHR '':'' \<notin> set a" "CHR '':'' \<notin> set b"
  shows "str_split '':'' (a @ '':'' @ b) = [a, b]"
  using assms by (simp add: str_split_first str_split_no_sep)

lemma hms_sum: "(n::int) div 3600 * 3600 + n mod 3600 div 60 * 60 + n mod 60 = n"
proof -
  have a: "n mod 3600 mod 60 = n mod 60"
    by (rule mod_mod_cancel) simp
  have b: "n mod 3600 div 60 * 60 + n mod 3600 mod 60 = n mod 3600"
    by simp
  have c: "n div 3600 * 3600 + n mod 3600 = n"
    by simp
  from a b c show ?thesis by linarith
qed

lemma hms_nonneg: "0 < (n::int) \<Longrightarrow> 0 \<le> n div 3600 \<and> 0 \<le> n mod 3600 div 60 \<and> 0 \<le> n mod 60"
  by (simp add: pos_imp_zdiv_nonneg_iff)

lemma parse_hms:
  assumes "0 \<le> h" "0 \<le> m" "0 \<le> s"
  shows "parse_timestamp (fmt_02d h @ '':'' @ fmt_02d m @ '':'' @ fmt_02d s)
           = Inr (h * 3600 + m * 60 + s)"
proof -
  let ?r = "fmt_02d h @ '':'' @ fmt_02d m @ '':'' @ fmt_02d s"
  note dg = fmt_02d_digits[OF assms(1)] fmt_02d_digits[OF assms(2)] fmt_02d_digits[OF assms(3)]
  have nc: "CHR '':'' \<notin> set (fmt_02d h)" "CHR '':'' \<notin> set (fmt_02d m)"
    "CHR '':'' \<notin> set (fmt_02d s)"
    using dg is_digit_not_colon by (auto simp: list_all_iff)
  have "is_digit (hd ?r)" "is_digit (last ?r)" using dg by (auto simp: list_all_iff)
  then have st: "str_strip ?r = ?r" by (intro str_strip_digit_ends) simp_all
  have sp: "str_split '':'' ?r = [fmt_02d h, fmt_02d m, fmt_02d s]"
    by (rule split3[OF nc])
  show ?thesis
    unfolding parse_timestamp_def st sp by (simp add: py_int_fmt_02d assms)
qed

lemma parse_ms:
  assumes "0 \<le> m" "0 \<le> s"
  shows "parse_timestamp (fmt_02d m @ '':'' @ fmt_02d s) = Inr (m * 60 + s)"
proof -
  let ?r = "fmt_02d m @ '':'' @ fmt_02d s"
  note dg = fmt_02d_digits[OF assms(1)] fmt_02d_digits[OF assms(2)]
  have nc: "CHR '':'' \<notin> set (fmt_02d m)" "CHR '':'' \<notin> set (fmt_02d s)"
    using dg is_digit_not_colon by (auto simp: list_all_iff)
  have "is_digit (hd ?r)" "is_digit (last ?r)" using dg by (auto simp: list_all_iff)
  then have st: "str_strip ?r = ?r" by (intro str_strip_digit_ends) simp_all
  have sp: "str_split '':'' ?r = [fmt_02d m, fmt_02d s]"
    by (rule split2[OF nc])
  show ?thesis
    unfolding parse_timestamp_def st sp by (simp add: py_int_fmt_02d assms)
qed

section \<open>Parsing and formatting cue times\<close>

lemma str_replace_append: "str_replace a b (s @ t) = str_replace a b s @ str_replace a b t"
  by (simp add: str_replace_def)

lemma str_replace_absent: "a \<notin> set s \<Longrightarrow> str_replace a b s = s"
  by (induction s) (auto simp: str_replace_def)

lemma digits_no_char:
  "list_all is_digit s \<Longrightarrow> \<not> is_digit c \<Longrightarrow> c \<notin> set s"
  by (auto simp: list_all_iff)

lemma not_digit_chars:
  "\<not> is_digit CHR '':''" "\<not> is_digit CHR '',''" "\<not> is_digit CHR ''.''"
  by (simp_all add: is_digit_cases)

lemma py_float_digits:
  assumes "list_all is_digit ds" "ds \<noteq> []" "list_all is_digit fs" "fs \<noteq> []"
  shows "py_float (ds @ CHR ''.'' # fs)
           = Some (of_nat (dec_val 0 ds) + of_nat (dec_val 0 fs) / 10 ^ length fs)"
proof -
  let ?u = "ds @ CHR ''.'' # fs"
  have h: "is_digit (hd ?u)" using assms(1,2) by (cases ds) auto
  have l: "is_digit (last ?u)" using assms(3,4) by (auto simp: list_all_iff)
  have s: "strip_with c_isspace ?u = ?u"
    using h l is_digit_not_c_isspace by (intro strip_with_id) auto
  have g: "split_sign ?u = (False, ?u)"
    using h is_digit_not_sign[of "hd ?u"] assms(2) by (cases ds) (auto simp: split_sign_def)
  have d1: "digitpart (ds @ (CHR ''.'' # fs)) = Some (dec_val 0 ds, length ds, CHR ''.'' # fs)"
    by (rule digitpart_digits[OF assms(1,2)]) (simp add: not_digit_chars)
  have d2: "digitpart (fs @ []) = Some (dec_val 0 fs, length fs, [])"
    by (rule digitpart_digits[OF assms(3,4)]) simp
  have n: "float_number ?u = Some (of_nat (dec_val 0 ds) + of_nat (dec_val 0 fs) / 10 ^ length fs, [])"
    using d1 d2 by (simp add: float_number_def)
  show ?thesis
    by (simp add: py_float_def s g n float_exponent_def)
qed

lemma srt_time_to_seconds_digits:
  assumes "list_all is_digit hh" "hh \<noteq> []" "list_all is_digit mm" "mm \<noteq> []"
    and "list_all is_digit sd" "sd \<noteq> []" "list_all is_digit fs" "fs \<noteq> []"
  shows "srt_time_to_seconds (hh @ '':'' @ mm @ '':'' @ sd @ '','' @ fs)
           = Some (of_nat (dec_val 0 hh) * 3600 + of_nat (dec_val 0 mm) * 60
                   + (of_nat (dec_val 0 sd) + of_nat (dec_val 0 fs) / 10 ^ length fs))"
proof -
  have r: "str_replace CHR '','' CHR ''.'' (hh @ '':'' @ mm @ '':'' @ sd @ '','' @ fs)
             = hh @ '':'' @ mm @ '':'' @ (sd @ ''.'' @ fs)"
  proof -
    have a: "str_replace CHR '','' CHR ''.'' d = d" if "list_all is_digit d" for d
      using that by (intro str_replace_absent digits_no_char) (simp_all add: not_digit_chars)
    have b: "str_replace CHR '','' CHR ''.'' '':'' = '':''" "str_replace CHR '','' CHR ''.'' '','' = ''.''"
      by (simp_all add: str_replace_def)
    show ?thesis
      by (simp only: str_replace_append a[OF assms(1)] a[OF assms(3)] a[OF assms(5)]
          a[OF assms(7)] b append_assoc)
  qed
  have nc: "CHR '':'' \<notin> set hh" "CHR '':'' \<notin> set mm" "CHR '':'' \<notin> set (sd @ ''.'' @ fs)"
    using assms(1,3,5,7) by (simp_all add: digits_no_char not_digit_chars)
  have sp: "str_split '':'' (hh @ '':'' @ mm @ '':'' @ (sd @ ''.'' @ fs)) = [hh, mm, sd @ ''.'' @ fs]"
    by (rule split3[OF nc])
  show ?thesis
    unfolding srt_time_to_seconds_def r sp
    by (simp add: py_int_digits[OF assms(1,2)] py_int_digits[OF assms(3,4)]
        py_float_digits[OF assms(5,6,7,8)])
qed

lemma nat_str_short: "n < 1000 \<Longrightarrow> length (nat_str n) \<le> 3"
  by (simp add: nat_str.simps[of n] nat_str.simps[of "n div 10"] nat_str.simps[of "n div 10 div 10"])

lemma zfill_length: "length s \<le> w \<Longrightarrow> length (zfill w s) = w"
  by (simp add: zfill_def)

lemma dec_val_zfill: "dec_val 0 (zfill w s) = dec_val 0 s"
  by (simp add: zfill_def dec_val_zeros)

lemma round_half_even_nonneg: "0 \<le> x \<Longrightarrow> 0 \<le> round_half_even x"
  by (auto simp: round_half_even_def Let_def)

lemma round_half_even_near:
  assumes "\<bar>x - of_int K\<bar> < 1 / 2"
  shows "round_half_even x = K"
proof -
  have "\<lfloor>x\<rfloor> = K \<or> \<lfloor>x\<rfloor> = K - 1"
  proof (cases "of_int K \<le> x")
    case True
    with assms have "of_int K \<le> x \<and> x < of_int K + 1" by (simp add: abs_if split: if_splits)
    then have "\<lfloor>x\<rfloor> = K" by (simp add: floor_eq_iff)
    then show ?thesis by simp
  next
    case False
    with assms have "of_int (K - 1) \<le> x \<and> x < of_int (K - 1) + 1"
      by (simp add: abs_if split: if_splits)
    then have "\<lfloor>x\<rfloor> = K - 1" by (simp only: floor_eq_iff)
    then show ?thesis by simp
  qed
  then consider "\<lfloor>x\<rfloor> = K" | "\<lfloor>x\<rfloor> = K - 1" by blast
  then show ?thesis
  proof cases
    case 1
    with assms have "x - of_int \<lfloor>x\<rfloor> < 1 / 2" by (simp add: abs_if split: if_splits)
    then show ?thesis using 1 by (simp add: round_half_even_def Let_def)
  next
    case 2
    then have "of_int \<lfloor>x\<rfloor> = (of_int K :: rat) - 1" by simp
    with assms have "x - of_int \<lfloor>x\<rfloor> > 1 / 2" by (simp add: abs_if split: if_splits)
    then show ?thesis using 2 by (simp add: round_half_even_def Let_def)
  qed
qed

lemma fmt_06_3f_form:
  assumes "0 \<le> x"
  defines "k \<equiv> round_half_even (x * 1000)"
  shows "\<exists>ds fs. fmt_06_3f x = ds @ CHR ''.'' # fs
           \<and> list_all is_digit ds \<and> ds \<noteq> [] \<and> list_all is_digit fs \<and> length fs = 3
           \<and> dec_val 0 ds = nat (k div 1000) \<and> dec_val 0 fs = nat (k mod 1000)"
proof -
  let ?a = "nat_str (nat (k div 1000))"
  let ?b = "zfill 3 (nat_str (nat (k mod 1000)))"
  let ?z = "replicate (6 - length (?a @ CHR ''.'' # ?b)) CHR ''0''"
  have k0: "0 \<le> k" unfolding k_def using assms(1) by (intro round_half_even_nonneg) simp
  have f: "fmt_06_3f x = (?z @ ?a) @ CHR ''.'' # ?b"
    using assms(1) by (simp add: fmt_06_3f_def fmt_3f_def zfill_def Let_def k_def)
  have da: "list_all is_digit (?z @ ?a)"
    using nat_str_digits[of "nat (k div 1000)"] by (auto simp: list_all_iff is_digit_zero)
  have na: "?z @ ?a \<noteq> []" by (simp add: nat_str_nonempty)
  have db: "list_all is_digit ?b" by (rule zfill_digits[OF nat_str_digits])
  have "nat (k mod 1000) < 1000" by simp
  then have lb: "length ?b = 3" by (intro zfill_length nat_str_short)
  have va: "dec_val 0 (?z @ ?a) = nat (k div 1000)"
    by (simp only: dec_val_zeros dec_val_nat_str)
  have vb: "dec_val 0 ?b = nat (k mod 1000)"
    by (simp only: dec_val_zfill dec_val_nat_str)
  from f da na db lb va vb show ?thesis by blast
qed

lemma py_mod_range: "0 < y \<Longrightarrow> 0 \<le> py_mod x y \<and> py_mod x y < y"
proof -
  assume y: "0 < y"
  have "of_int \<lfloor>x / y\<rfloor> \<le> x / y" "x / y < of_int \<lfloor>x / y\<rfloor> + 1" by linarith+
  then have "of_int \<lfloor>x / y\<rfloor> * y \<le> x" "x < (of_int \<lfloor>x / y\<rfloor> + 1) * y"
    using y by (simp_all only: pos_le_divide_eq pos_divide_less_eq)
  then show ?thesis by (simp add: py_mod_def algebra_simps)
qed

lemma floordiv_nonneg: "0 \<le> x \<Longrightarrow> 0 < y \<Longrightarrow> 0 \<le> py_floordiv x y"
  by (simp add: py_floordiv_def)

lemma hms_split:
  "of_int (py_floordiv v 3600) * 3600 + of_int (py_floordiv (py_mod v 3600) 60) * 60
     = v - py_mod v 60"
proof -
  have "py_mod v 3600 / 60 = v / 60 - of_int (\<lfloor>v / 3600\<rfloor> * 60)"
    by (simp add: py_mod_def field_simps)
  then have "\<lfloor>py_mod v 3600 / 60\<rfloor> = \<lfloor>v / 60\<rfloor> - \<lfloor>v / 3600\<rfloor> * 60"
    by (simp only: floor_diff_of_int)
  then show ?thesis
    by (simp add: py_floordiv_def py_mod_def)
qed

lemma dec_val_fmt_02d: "0 \<le> n \<Longrightarrow> dec_val 0 (fmt_02d n) = nat n"
  by (simp add: fmt_02d_def dec_val_zfill dec_val_nat_str)

lemma parse_serialized:
  assumes "0 \<le> v"
  shows "srt_time_to_seconds (seconds_to_srt_time v)
           = Some (v - py_mod v 60 + of_int (round_half_even (py_mod v 60 * 1000)) / 1000)"
proof -
  define H where "H = py_floordiv v 3600"
  define M where "M = py_floordiv (py_mod v 3600) 60"
  define k where "k = round_half_even (py_mod v 60 * 1000)"
  have H0: "0 \<le> H" unfolding H_def using assms by (intro floordiv_nonneg) simp_all
  have M0: "0 \<le> M" unfolding M_def using py_mod_range[of 3600 v] by (intro floordiv_nonneg) simp_all
  have s0: "0 \<le> py_mod v 60" using py_mod_range[of 60 v] by simp
  have k0: "0 \<le> k" unfolding k_def using s0 by (intro round_half_even_nonneg) simp
  from fmt_06_3f_form[OF s0] obtain ds fs where
    f: "fmt_06_3f (py_mod v 60) = ds @ CHR ''.'' # fs"
    and d: "list_all is_digit ds" "ds \<noteq> []" "list_all is_digit fs" "length fs = 3"
    and vd: "dec_val 0 ds = nat (k div 1000)" "dec_val 0 fs = nat (k mod 1000)"
    unfolding k_def by blast
  note dH = fmt_02d_digits[OF H0] and dM = fmt_02d_digits[OF M0]
  have a: "str_replace CHR ''.'' CHR '','' x = x" if "list_all is_digit x" for x
    using that by (intro str_replace_absent digits_no_char) (simp_all add: not_digit_chars)
  have b: "str_replace CHR ''.'' CHR '','' '':'' = '':''"
    "str_replace CHR ''.'' CHR '','' ''.'' = '',''"
    by (simp_all add: str_replace_def)
  have "seconds_to_srt_time v
          = str_replace CHR ''.'' CHR '','' (fmt_02d H @ '':'' @ fmt_02d M @ '':'' @ ds @ ''.'' @ fs)"
    by (simp add: seconds_to_srt_time_def Let_def H_def M_def f)
  also have "\<dots> = fmt_02d H @ '':'' @ fmt_02d M @ '':'' @ ds @ '','' @ fs"
    using dH dM d by (simp only: str_replace_append a b)
  finally have r: "seconds_to_srt_time v = fmt_02d H @ '':'' @ fmt_02d M @ '':'' @ ds @ '','' @ fs" .
  have fs_ne: "fs \<noteq> []" using d(4) by auto
  have p: "srt_time_to_seconds (seconds_to_srt_time v)
        = Some (of_nat (dec_val 0 (fmt_02d H)) * 3600 + of_nat (dec_val 0 (fmt_02d M)) * 60
                   + (of_nat (dec_val 0 ds) + of_nat (dec_val 0 fs) / 10 ^ length fs))"
    unfolding r using dH dM d(1,2,3) fs_ne by (intro srt_time_to_seconds_digits) simp_all
  have sec: "(of_nat (nat (k div 1000)) :: rat) + of_nat (nat (k mod 1000)) / 1000 = of_int k / 1000"
  proof -
    have "k = k div 1000 * 1000 + k mod 1000" by simp
    then have "(of_int k :: rat) = of_int (k div 1000) * 1000 + of_int (k mod 1000)"
      by (metis of_int_add of_int_mult of_int_numeral)
    moreover have "0 \<le> k div 1000" "0 \<le> k mod 1000" using k0 by (simp_all add: pos_imp_zdiv_nonneg_iff)
    ultimately show ?thesis by (simp add: field_simps)
  qed
  have hm: "(of_int H :: rat) * 3600 + of_int M * 60 = v - py_mod v 60"
    unfolding H_def M_def by (rule hms_split)
  have "(of_nat (dec_val 0 (fmt_02d H)) :: rat) = of_int H" "(of_nat (dec_val 0 (fmt_02d M)) :: rat) = of_int M"
    using H0 M0 by (simp_all add: dec_val_fmt_02d)
  with p vd d(4) sec hm show ?thesis
    unfolding k_def[symmetric] by simp
qed

lemma wf_srt_time_split:
  assumes "wf_srt_time x"
  shows "x = take 2 x @ '':'' @ take 2 (drop 3 x) @ '':'' @ take 2 (drop 6 x) @ '','' @ drop 9 x"
proof -
  from assms have l: "length x = 12" and c: "x ! 2 = CHR '':''" "x ! 5 = CHR '':''" "x ! 8 = CHR '',''"
    by (simp_all add: wf_srt_time_def)
  have 1: "x = take 2 x @ x ! 2 # drop 3 x"
    using id_take_nth_drop[of 2 x] l by simp
  have 2: "drop 3 x = take 2 (drop 3 x) @ x ! 5 # drop 6 x"
    using id_take_nth_drop[of 2 "drop 3 x"] l by simp
  have 3: "drop 6 x = take 2 (drop 6 x) @ x ! 8 # drop 9 x"
    using id_take_nth_drop[of 2 "drop 6 x"] l by simp
  have "x = take 2 x @ x ! 2 # take 2 (drop 3 x) @ x ! 5 # take 2 (drop 6 x) @ x ! 8 # drop 9 x"
    using 1 2 3 by metis
  then show ?thesis unfolding c by simp
qed

lemma near_millisecond:
  assumes "0 \<le> v" and "\<bar>v - of_int T / 1000\<bar> < 1 / 2000"
  shows "srt_time_to_seconds (seconds_to_srt_time v) = Some (of_int T / 1000)"
proof -
  define q where "q = \<lfloor>v / 60\<rfloor>"
  have m: "py_mod v 60 = v - of_int q * 60" by (simp add: py_mod_def q_def)
  have "py_mod v 60 * 1000 - of_int (T - 60000 * q) = (v - of_int T / 1000) * 1000"
    by (simp add: m algebra_simps)
  then have "\<bar>py_mod v 60 * 1000 - of_int (T - 60000 * q)\<bar> = \<bar>(v - of_int T / 1000) * 1000\<bar>"
    by (simp only:)
  also have "\<dots> = \<bar>v - of_int T / 1000\<bar> * 1000"
    by (simp only: abs_mult)
  also have "\<dots> < 1 / 2" using assms(2) by simp
  finally have r: "round_half_even (py_mod v 60 * 1000) = T - 60000 * q"
    by (rule round_half_even_near)
  have e: "v - py_mod v 60 + of_int (T - 60000 * q) / 1000 = of_int T / 1000"
    by (simp add: m diff_divide_distrib)
  show ?thesis
    by (simp only: parse_serialized[OF assms(1)] r e)
qed

text \<open>
  A non-negative time of whole milliseconds is serialized exactly: reading the string
  back gives the same time. Two such times that differ are therefore serialized to
  strings that differ.
\<close>

lemma whole_milliseconds_exact:
  assumes "0 \<le> v" and "v = of_int T / 1000"
  shows "srt_time_to_seconds (seconds_to_srt_time v) = Some v"
proof -
  have "\<bar>v - of_int T / 1000\<bar> < 1 / 2000" unfolding assms(2) by simp
  from near_millisecond[OF assms(1) this] show ?thesis unfolding assms(2) .
qed

section \<open>The loop as a filter over the blocks\<close>

lemma trim_block_retime_block:
  "trim_block ss es n block =
     (case retime_block ss es block of
        None \<Rightarrow> None
      | Some (a, b, tx) \<Rightarrow> Some (render_block n a b tx))"
  by (simp add: trim_block_def retime_block_def split: option.splits)

lemma trim_loop_render:
  "trim_loop ss es blocks (acc, n) =
     (acc @ render_from n (List.map_filter (retime_block ss es) blocks),
      n + length (List.map_filter (retime_block ss es) blocks))"
proof (induction blocks arbitrary: acc n)
  case Nil
  show ?case by (simp add: List.map_filter_simps)
next
  case (Cons block blocks)
  show ?case
  proof (cases "retime_block ss es block")
    case None
    then show ?thesis
      using Cons.IH[of acc n] by (simp add: trim_block_retime_block List.map_filter_simps)
  next
    case (Some c)
    obtain a b tx where c: "c = (a, b, tx)" by (cases c) auto
    show ?thesis
      using Cons.IH[of "acc @ [render_block n a b tx]" "Suc n"] Some c
      by (simp add: trim_block_retime_block List.map_filter_simps)
  qed
qed

lemma render_from_length: "length (render_from n cs) = length cs"
  by (induction n cs rule: render_from.induct) auto

lemma render_from_nth:
  "i < length cs \<Longrightarrow>
   render_from n cs ! i = (case cs ! i of (a, b, tx) \<Rightarrow> render_block (n + i) a b tx)"
proof (induction n cs arbitrary: i rule: render_from.induct)
  case (1 n)
  then show ?case by simp
next
  case (2 n a b tx cs)
  then show ?case by (cases i) auto
qed

lemma trimmed_blocks_render:
  "trimmed_blocks ss es content = render_from 1 (retimed_cues ss es content)"
  by (simp add: trimmed_blocks_def retimed_cues_def trim_loop_render)




lemma malformed_parse_block: "malformed block \<longleftrightarrow> parse_block block = None"
  by (auto simp: malformed_def parse_block_def Let_def split: option.splits)

lemma malformed_retime_block: "malformed block \<Longrightarrow> retime_block ss es block = None"
  by (simp add: malformed_parse_block retime_block_def)

lemma trim_loop_length:
  "length (fst (trim_loop ss es blocks ([], n))) = length (List.map_filter (retime_block ss es) blocks)"
  by (simp add: trim_loop_render render_from_length)





section \<open>Properties of the timestamp parser\<close>

text \<open>
  C6: let the fields be the parts of the whitespace-trimmed input between colons. With
  exactly two fields that \<^verbatim>\<open>int()\<close> accepts, of values \<open>m\<close> and \<open>s\<close>, the parser returns
  \<open>m * 60 + s\<close>; with exactly three, of values \<open>h\<close>, \<open>m\<close> and \<open>s\<close>, it returns
  \<open>h * 3600 + m * 60 + s\<close>; no range of \<open>m\<close> or \<open>s\<close> is required or enforced. In every
  other case (another number of fields, or a field that is not an integer) it fails with
  the format error.
\<close>

theorem parse_timestamp_fields:
  "(str_split '':'' (str_strip t) = [a, b] \<and> py_int a = Some m \<and> py_int b = Some s
      \<longrightarrow> parse_timestamp t = Inr (m * 60 + s))
   \<and> (str_split '':'' (str_strip t) = [a, b, c] \<and> py_int a = Some h \<and> py_int b = Some m
        \<and> py_int c = Some s
      \<longrightarrow> parse_timestamp t = Inr (h * 3600 + m * 60 + s))
   \<and> (\<not> (length (str_split '':'' (str_strip t)) \<in> {2, 3}
           \<and> (\<forall>f \<in> set (str_split '':'' (str_strip t)). py_int f \<noteq> None))
      \<longrightarrow> parse_timestamp t = Inl FormatError)"
proof (intro conjI impI)
  assume "str_split '':'' (str_strip t) = [a, b] \<and> py_int a = Some m \<and> py_int b = Some s"
  then show "parse_timestamp t = Inr (m * 60 + s)"
    by (simp add: parse_timestamp_def)
next
  assume "str_split '':'' (str_strip t) = [a, b, c] \<and> py_int a = Some h \<and> py_int b = Some m
        \<and> py_int c = Some s"
  then show "parse_timestamp t = Inr (h * 3600 + m * 60 + s)"
    by (simp add: parse_timestamp_def)
next
  assume "\<not> (length (str_split '':'' (str_strip t)) \<in> {2, 3}
           \<and> (\<forall>f \<in> set (str_split '':'' (str_strip t)). py_int f \<noteq> None))"
  then show "parse_timestamp t = Inl FormatError"
    by (auto simp: parse_timestamp_def split: list.splits option.splits)
qed

theorem parse_timestamp_fields_witness:
  "parse_timestamp ''90:75'' = Inr 5475 \<and> parse_timestamp ''1:90:75'' = Inr 9075
   \<and> parse_timestamp ''1:2:3:4'' = Inl FormatError \<and> parse_timestamp ''1:x'' = Inl FormatError"
proof -
  have e: "str_strip ''90:75'' = ''90:75''" "str_strip ''1:90:75'' = ''1:90:75''"
     "str_strip ''1:2:3:4'' = ''1:2:3:4''" "str_strip ''1:x'' = ''1:x''"
    by (simp_all add: str_strip_def strip_with_def str_isspace_def)
  have i: "py_int ''90'' = Some 90" "py_int ''75'' = Some 75" "py_int ''1'' = Some 1"
     "py_int ''x'' = None"
    by (simp_all add: py_int_def strip_with_def c_isspace_def split_sign_def digitpart_def digit_val_def)
  show ?thesis
    using parse_timestamp_fields[of "''90:75''" "''90''" "''75''" 90 75]
      parse_timestamp_fields[of "''1:90:75''" "''1''" "''90''" 90 75 "''75''" 1]
      parse_timestamp_fields[of "''1:2:3:4''"]
      parse_timestamp_fields[of "''1:x''"]
    by (simp add: e i)
qed

text \<open>
  C7: for start and end timestamps that parse to \<open>s\<close> and \<open>e\<close> and a video of known
  duration \<open>d\<close>, the validator fails with a range error exactly when \<open>s \<ge> e\<close>, or \<open>s\<close>
  or \<open>e\<close> exceeds \<open>d\<close>; otherwise it returns the pair \<open>(s, e)\<close>.
\<close>

theorem validate_timestamps_range:
  assumes "parse_timestamp start_time = Inr s" and "parse_timestamp end_time = Inr e"
  shows "(s \<ge> e \<or> s > d \<or> e > d \<longrightarrow>
            (\<exists>err. validate_timestamps (Some d) start_time end_time = Inl err
                   \<and> is_RangeError d err \<and> err \<noteq> FormatError))
         \<and> (\<not> (s \<ge> e \<or> s > d \<or> e > d) \<longrightarrow>
            validate_timestamps (Some d) start_time end_time = Inr (s, e))"
  using assms
  by (auto simp: validate_timestamps_def is_RangeError_def FormatError_def Let_def)

theorem validate_timestamps_range_witness:
  "parse_timestamp ''0:10'' = Inr 10 \<and> parse_timestamp ''1:40'' = Inr 100
   \<and> validate_timestamps (Some 100) ''0:10'' ''1:40'' = Inr (10, 100)
   \<and> (\<exists>err. validate_timestamps (Some 100) ''1:40'' ''0:10'' = Inl err
          \<and> is_RangeError 100 err \<and> err \<noteq> FormatError)"
proof -
  have a: "parse_timestamp ''0:10'' = Inr 10"
    by (simp add: parse_timestamp_def str_strip_def strip_with_def str_isspace_def c_isspace_def
      py_int_def split_sign_def digitpart_def digit_val_def)
  have b: "parse_timestamp ''1:40'' = Inr 100"
    by (simp add: parse_timestamp_def str_strip_def strip_with_def str_isspace_def c_isspace_def
      py_int_def split_sign_def digitpart_def digit_val_def)
  from validate_timestamps_range[OF a b, of 100] validate_timestamps_range[OF b a, of 100] a b
  show ?thesis by simp
qed

text \<open>
  C8, as amended: for every timestamp string that parses to a value \<open>n\<close> other than zero
  seconds (\<open>n > 0\<close>; a valid string has no negative field), formatting \<open>n\<close> with
  \<^verbatim>\<open>_format_duration\<close> and parsing the result gives \<open>n\<close> again.
\<close>

theorem parse_format_round_trip:
  assumes "parse_timestamp x = Inr n" and "n > 0"
  shows "parse_timestamp (format_duration n) = Inr n"
proof (cases "n div 3600 > 0")
  case True
  have "format_duration n
          = fmt_02d (n div 3600) @ '':'' @ fmt_02d (n mod 3600 div 60) @ '':'' @ fmt_02d (n mod 60)"
    using True assms(2) by (simp add: format_duration_def Let_def)
  moreover have "parse_timestamp (fmt_02d (n div 3600) @ '':'' @ fmt_02d (n mod 3600 div 60) @ '':'' @ fmt_02d (n mod 60))
     = Inr (n div 3600 * 3600 + n mod 3600 div 60 * 60 + n mod 60)"
    using hms_nonneg[OF assms(2)] by (intro parse_hms) simp_all
  ultimately show ?thesis by (simp only: hms_sum)
next
  case False
  with hms_nonneg[OF assms(2)] have h0: "n div 3600 = 0" by linarith
  have "format_duration n = fmt_02d (n mod 3600 div 60) @ '':'' @ fmt_02d (n mod 60)"
    using h0 assms(2) by (simp add: format_duration_def Let_def)
  moreover have "parse_timestamp (fmt_02d (n mod 3600 div 60) @ '':'' @ fmt_02d (n mod 60))
     = Inr (n mod 3600 div 60 * 60 + n mod 60)"
    using hms_nonneg[OF assms(2)] by (intro parse_ms) simp_all
  moreover have "n mod 3600 div 60 * 60 + n mod 60 = n"
    using hms_sum[of n] h0 by simp
  ultimately show ?thesis by (simp only:)
qed

theorem parse_format_round_trip_witness:
  "parse_timestamp ''1:01:01'' = Inr 3661 \<and> (0::int) < 3661
   \<and> parse_timestamp (format_duration 3661) = Inr 3661"
proof -
  have p: "parse_timestamp ''1:01:01'' = Inr 3661"
    by (simp add: parse_timestamp_def str_strip_def strip_with_def str_isspace_def c_isspace_def
      py_int_def split_sign_def digitpart_def digit_val_def)
  from parse_format_round_trip[OF p] p show ?thesis by simp
qed

text \<open>
  C8 as first stated fails at zero: \<^verbatim>\<open>00:00\<close> parses to \<open>0\<close>, which
  \<^verbatim>\<open>_format_duration\<close> renders as \<^verbatim>\<open>N/A\<close>, and that is not a timestamp.
\<close>

theorem zero_round_trip_fails:
  "parse_timestamp ''00:00'' = Inr 0 \<and> format_duration 0 = ''N/A''
   \<and> parse_timestamp (format_duration 0) = Inl FormatError"
  by (simp add: parse_timestamp_def str_strip_def strip_with_def str_isspace_def c_isspace_def
      py_int_def split_sign_def digitpart_def digit_val_def format_duration_def)

text \<open>
  C10: the parser does not require non-negative fields. On the input \<^verbatim>\<open>-1:30\<close> it returns
  \<open>-30\<close> seconds (\<open>-1 * 60 + 30\<close>), a negative value, and raises no error.
\<close>

theorem parse_timestamp_negative_field:
  "parse_timestamp ''-1:30'' = Inr (- 30) \<and> (- 30 :: int) < 0"
  by (simp add: parse_timestamp_def str_strip_def strip_with_def str_isspace_def c_isspace_def
      py_int_def split_sign_def digitpart_def digit_val_def)

section \<open>Properties of cue times\<close>

text \<open>
  C3: a cue time \<open>x\<close> in the form \<^verbatim>\<open>HH:MM:SS,mmm\<close> is read as a value \<open>t\<close>, and the
  serialization of \<open>t\<close> is read back as \<open>t\<close>: the timing is reproduced to the millisecond.
  Serialization rounds to the nearest millisecond and does not truncate: every value
  \<open>v \<ge> 0\<close> less than half a millisecond away from \<open>t\<close>, above or below, is serialized to
  a string that is read back as \<open>t\<close>. (Cue times are exact rationals here; the last part
  covers the error of binary floating point.)
\<close>

theorem srt_time_round_trip:
  assumes "wf_srt_time x"
  shows "\<exists>t. srt_time_to_seconds x = Some t \<and> 0 \<le> t
           \<and> srt_time_to_seconds (seconds_to_srt_time t) = Some t
           \<and> (\<forall>v. 0 \<le> v \<and> \<bar>v - t\<bar> < 1 / 2000 \<longrightarrow>
                  srt_time_to_seconds (seconds_to_srt_time v) = Some t)"
proof -
  let ?hh = "take 2 x" and ?mm = "take 2 (drop 3 x)" and ?sd = "take 2 (drop 6 x)" and ?fs = "drop 9 x"
  define T :: int where
    "T = int (dec_val 0 ?hh) * 3600000 + int (dec_val 0 ?mm) * 60000
         + int (dec_val 0 ?sd) * 1000 + int (dec_val 0 ?fs)"
  from assms have l: "length x = 12"
    and d: "list_all is_digit ?hh" "list_all is_digit ?mm" "list_all is_digit ?sd" "list_all is_digit ?fs"
    by (simp_all add: wf_srt_time_def)
  from l have ne: "?hh \<noteq> []" "?mm \<noteq> []" "?sd \<noteq> []" "?fs \<noteq> []" and lf: "length ?fs = 3"
    by auto
  have "srt_time_to_seconds (?hh @ '':'' @ ?mm @ '':'' @ ?sd @ '','' @ ?fs)
          = Some (of_nat (dec_val 0 ?hh) * 3600 + of_nat (dec_val 0 ?mm) * 60
                   + (of_nat (dec_val 0 ?sd) + of_nat (dec_val 0 ?fs) / 10 ^ length ?fs))"
    using d ne by (intro srt_time_to_seconds_digits)
  then have p: "srt_time_to_seconds x = Some (of_int T / 1000)"
    unfolding wf_srt_time_split[OF assms, symmetric] lf by (simp add: T_def field_simps)
  have T0: "0 \<le> T" by (simp add: T_def)
  then have t0: "(0::rat) \<le> of_int T / 1000" by simp
  have n: "srt_time_to_seconds (seconds_to_srt_time v) = Some (of_int T / 1000)"
    if "0 \<le> v \<and> \<bar>v - of_int T / 1000\<bar> < 1 / 2000" for v
    using that near_millisecond by blast
  have "srt_time_to_seconds (seconds_to_srt_time (of_int T / 1000)) = Some (of_int T / 1000)"
    using t0 by (intro n) simp
  with p t0 n show ?thesis by blast
qed

theorem srt_time_round_trip_witness:
  "wf_srt_time ''01:02:03,456''
   \<and> srt_time_to_seconds (seconds_to_srt_time (3723456 / 1000)) = Some (3723456 / 1000)
   \<and> srt_time_to_seconds (seconds_to_srt_time (37234556 / 10000)) = Some (3723456 / 1000)"
proof -
  have w: "wf_srt_time ''01:02:03,456''" by code_simp
  have p: "srt_time_to_seconds ''01:02:03,456'' = Some (3723456 / 1000)" by code_simp
  from srt_time_round_trip[OF w] obtain t where
    t: "srt_time_to_seconds ''01:02:03,456'' = Some t"
    and 1: "srt_time_to_seconds (seconds_to_srt_time t) = Some t"
    and 2: "\<forall>v. 0 \<le> v \<and> \<bar>v - t\<bar> < 1 / 2000 \<longrightarrow>
                  srt_time_to_seconds (seconds_to_srt_time v) = Some t"
    by blast
  from t p have e: "t = 3723456 / 1000" by (simp only: option.inject)
  have "srt_time_to_seconds (seconds_to_srt_time (37234556 / 10000)) = Some t"
    by (rule 2[rule_format]) (simp add: e)
  with w 1 show ?thesis unfolding e by blast
qed

section \<open>Properties of the trim\<close>

text \<open>
  The worked example of the specification: cues \<open>[0, 5)\<close>, \<open>[4, 10)\<close> and \<open>[12, 20)\<close>
  with the window \<open>[3, 15)\<close> give \<open>[0, 2)\<close>, \<open>[1, 7)\<close> and \<open>[9, 12)\<close>, numbered 1 to 3.
\<close>

lemma worked_example:
  "trimmed_blocks 3 15
     ''1\<newline>00:00:00,000 --> 00:00:05,000\<newline>A\<newline>\<newline>2\<newline>00:00:04,000 --> 00:00:10,000\<newline>B\<newline>\<newline>3\<newline>00:00:12,000 --> 00:00:20,000\<newline>C\<newline>''
   = [''1\<newline>00:00:00,000 --> 00:00:02,000\<newline>A'',
      ''2\<newline>00:00:01,000 --> 00:00:07,000\<newline>B'',
      ''3\<newline>00:00:09,000 --> 00:00:12,000\<newline>C'']"
  by code_simp





text \<open>
  C4: a malformed block (fewer than three lines, or a time line that cannot be read)
  gives no output block and raises nothing, and the loop ends in the same state as on the
  input without that block: the other blocks, and their numbers, are not affected. One
  malformed block and two blocks that are kept, in any order, give exactly two output
  blocks.
\<close>

theorem malformed_block_skipped:
  assumes "malformed bad"
  shows "trim_block ss es n bad = None
       \<and> trim_loop ss es (xs @ bad # ys) st = trim_loop ss es (xs @ ys) st
       \<and> (retime_block ss es g1 \<noteq> None \<and> retime_block ss es g2 \<noteq> None \<longrightarrow>
            length (fst (trim_loop ss es [bad, g1, g2] ([], 1))) = 2
          \<and> length (fst (trim_loop ss es [g1, bad, g2] ([], 1))) = 2
          \<and> length (fst (trim_loop ss es [g1, g2, bad] ([], 1))) = 2)"
proof -
  have r: "retime_block ss es bad = None" by (rule malformed_retime_block[OF assms])
  have a: "trim_block ss es n bad = None" for n
    by (simp add: trim_block_retime_block r)
  obtain acc k where st: "st = (acc, k)" by (cases st)
  have b: "trim_loop ss es (xs @ bad # ys) st = trim_loop ss es (xs @ ys) st"
    unfolding st by (simp add: trim_loop_render List.map_filter_def r)
  have c: "length (fst (trim_loop ss es [bad, g1, g2] ([], 1))) = 2
          \<and> length (fst (trim_loop ss es [g1, bad, g2] ([], 1))) = 2
          \<and> length (fst (trim_loop ss es [g1, g2, bad] ([], 1))) = 2"
    if "retime_block ss es g1 \<noteq> None \<and> retime_block ss es g2 \<noteq> None"
    unfolding trim_loop_length using that r by (auto simp: List.map_filter_def)
  from a b c show ?thesis by blast
qed

theorem malformed_block_skipped_witness:
  "malformed ''2\<newline>broken\<newline>B''
   \<and> blocks_of ''1\<newline>00:00:00,000 --> 00:00:05,000\<newline>A\<newline>\<newline>2\<newline>broken\<newline>B\<newline>\<newline>3\<newline>00:00:12,000 --> 00:00:20,000\<newline>C\<newline>''
       = [''1\<newline>00:00:00,000 --> 00:00:05,000\<newline>A'', ''2\<newline>broken\<newline>B'',
          ''3\<newline>00:00:12,000 --> 00:00:20,000\<newline>C'']
   \<and> length (trimmed_blocks 3 15 ''1\<newline>00:00:00,000 --> 00:00:05,000\<newline>A\<newline>\<newline>2\<newline>broken\<newline>B\<newline>\<newline>3\<newline>00:00:12,000 --> 00:00:20,000\<newline>C\<newline>'') = 2"
proof -
  let ?g1 = "''1\<newline>00:00:00,000 --> 00:00:05,000\<newline>A''"
  let ?bad = "''2\<newline>broken\<newline>B''"
  let ?g2 = "''3\<newline>00:00:12,000 --> 00:00:20,000\<newline>C''"
  have m: "malformed ?bad" by code_simp
  have bl: "blocks_of ''1\<newline>00:00:00,000 --> 00:00:05,000\<newline>A\<newline>\<newline>2\<newline>broken\<newline>B\<newline>\<newline>3\<newline>00:00:12,000 --> 00:00:20,000\<newline>C\<newline>''
       = [?g1, ?bad, ?g2]"
    by code_simp
  have g1: "retime_block 3 15 ?g1 = Some (0, 2, [''A''])" by code_simp
  have g2: "retime_block 3 15 ?g2 = Some (9, 12, [''C''])" by code_simp
  from malformed_block_skipped[OF m, of 3 15 1 "[]" "[]" "([], 1)" ?g1 ?g2] g1 g2
  have "length (fst (trim_loop 3 15 [?g1, ?bad, ?g2] ([], 1))) = 2" by simp
  then show ?thesis using m bl by (simp only: trimmed_blocks_def)
qed

text \<open>
  C5: the output has one block for each cue that is kept; the block at position \<open>i\<close>
  (from \<open>0\<close>) is the \<open>i\<close>-th kept cue in the order of the input, numbered \<open>i + 1\<close>. The
  order is that of the file and not that of the new start times: in the example below
  the first output block starts at \<open>9\<close> seconds and the second at \<open>0\<close>.
\<close>

theorem renumbered_in_order:
  "length (trimmed_blocks ss es content)
     = length (List.map_filter (retime_block ss es) (blocks_of content))
   \<and> (\<forall>i < length (trimmed_blocks ss es content).
        trimmed_blocks ss es content ! i =
          (case List.map_filter (retime_block ss es) (blocks_of content) ! i of
             (a, b, tx) \<Rightarrow> render_block (Suc i) a b tx))"
  using render_from_nth[of _ "retimed_cues ss es content" 1]
  by (simp add: trimmed_blocks_render render_from_length retimed_cues_def)

theorem renumbered_in_order_witness:
  "trimmed_blocks 3 15 ''7\<newline>00:00:12,000 --> 00:00:20,000\<newline>C\<newline>\<newline>x\<newline>\<newline>4\<newline>00:00:00,000 --> 00:00:05,000\<newline>A''
     = [render_block 1 9 12 [''C''], render_block 2 0 2 [''A'']]"
proof -
  let ?c = "''7\<newline>00:00:12,000 --> 00:00:20,000\<newline>C\<newline>\<newline>x\<newline>\<newline>4\<newline>00:00:00,000 --> 00:00:05,000\<newline>A''"
  have m: "List.map_filter (retime_block 3 15) (blocks_of ?c) = [(9, 12, [''C'']), (0, 2, [''A''])]"
    by code_simp
  from renumbered_in_order[of 3 15 ?c]
  have l: "length (trimmed_blocks 3 15 ?c) = 2"
    and n: "\<forall>i<2. trimmed_blocks 3 15 ?c ! i = (case [(9, 12, [''C'']), (0, 2, [''A''])] ! i of
             (a, b, tx) \<Rightarrow> render_block (Suc i) a b tx)"
    unfolding m by simp_all
  from n have "trimmed_blocks 3 15 ?c ! 0 = render_block 1 9 12 [''C'']"
    "trimmed_blocks 3 15 ?c ! 1 = render_block 2 0 2 [''A'']"
    by (simp_all add: numeral_2_eq_2)
  with l show ?thesis
    by (intro nth_equalityI) (auto simp: less_Suc_eq numeral_2_eq_2)
qed

text \<open>
  C9: when the input file cannot be read, or holds nothing but whitespace, the operation
  writes the empty string to the output file; in the second case the list of trimmed
  blocks is empty. The operation is a total function: no exception leaves it.
\<close>

theorem empty_or_unreadable_input:
  "(fs input_srt = None \<longrightarrow>
      trim_subtitle_file fs input_srt output_srt ss es = fs(output_srt \<mapsto> []))
   \<and> (fs input_srt = Some content \<and> str_strip content = [] \<longrightarrow>
      trimmed_blocks ss es content = []
      \<and> trim_subtitle_file fs input_srt output_srt ss es = fs(output_srt \<mapsto> []))"
proof -
  have p: "parse_block [] = None"
    by (simp add: parse_block_def str_strip_def strip_with_def)
  have "trimmed_blocks ss es content = []" if "str_strip content = []"
    using that p by (simp add: trimmed_blocks_def blocks_of_def trim_block_def)
  then show ?thesis by (auto simp: trim_subtitle_file_def)
qed

theorem empty_or_unreadable_input_witness:
  "trim_subtitle_file Map.empty ''in.srt'' ''out.srt'' 3 15 = [''out.srt'' \<mapsto> []]
   \<and> trim_subtitle_file [''in.srt'' \<mapsto> '' \<newline>''] ''in.srt'' ''out.srt'' 3 15
        = [''in.srt'' \<mapsto> '' \<newline>'', ''out.srt'' \<mapsto> []]"
proof -
  have s: "str_strip '' \<newline>'' = []" by code_simp
  from empty_or_unreadable_input[where fs = Map.empty and input_srt = "''in.srt''"
      and output_srt = "''out.srt''" and ss = 3 and es = 15]
    empty_or_unreadable_input[where fs = "[''in.srt'' \<mapsto> '' \<newline>'']"
      and input_srt = "''in.srt''" and content = "'' \<newline>''"
      and output_srt = "''out.srt''" and ss = 3 and es = 15]
    s
  show ?thesis by simp
qed

end
